theory Spec2Isabelle
  imports Complex_Main "HOL-Library.Log_Nat"
begin

section \<open>The user model of auto-lease-backend (src/models/userModel.js)\<close>

text \<open>
  The model follows userModel.js. A JavaScript string is a \<open>string\<close>: the list of its
  code units, restricted to the code units below 256. A schema path that may be absent
  (\<open>undefined\<close>) is an \<open>option\<close>. A \<open>Date\<close> is its \<open>getTime()\<close> value, the
  milliseconds since the epoch, as an \<open>int\<close>. A finite JavaScript number is the
  rational it denotes, and an arithmetic operation on numbers rounds its exact result to
  the nearest double. The functions of bcrypt and node:crypto, and the clock, are
  supplied by an environment record.
\<close>

subsection \<open>Constants imported from utils/constants.js\<close>

text \<open>Modelled from the spec: utils/constants.js is not among the sources; the spec names
  the status APPROVED of DEALERSHIP_APPLICATION_STATUS.\<close>
definition APPROVED :: string where
  "APPROVED = ''APPROVED''"

text \<open>Modelled from the spec: utils/constants.js is not among the sources; the spec names
  the status PENDING of DEALERSHIP_APPLICATION_STATUS.\<close>
definition PENDING :: string where
  "PENDING = ''PENDING''"

text \<open>Modelled from the spec: utils/constants.js is not among the sources; the spec names
  the status REJECTED of DEALERSHIP_APPLICATION_STATUS.\<close>
definition REJECTED :: string where
  "REJECTED = ''REJECTED''"

text \<open>Modelled from the spec: utils/constants.js is not among the sources; the spec names
  the role USER of ROLES.\<close>
definition USER :: string where
  "USER = ''USER''"

text \<open>Modelled from the spec: utils/constants.js is not among the sources; the spec names
  the role DEALER of ROLES.\<close>
definition DEALER :: string where
  "DEALER = ''DEALER''"

text \<open>Modelled from the spec: utils/constants.js is not among the sources; the spec names
  the role ADMIN of ROLES.\<close>
definition ADMIN :: string where
  "ADMIN = ''ADMIN''"

subsection \<open>Errors\<close>

text \<open>
  \<open>AppError message statusCode\<close> is the application's own error (utils/appError.js),
  \<open>ValidationError paths\<close> is mongoose's, carrying the paths that failed, and
  \<open>Error message\<close> is a plain JavaScript error raised by a library.
\<close>

datatype error =
    AppError string nat
  | ValidationError "string list"
  | Error string

text \<open>The spec's ForbiddenTransitionError is an \<open>AppError\<close> with status code 403.\<close>

definition ForbiddenTransitionError :: "error \<Rightarrow> bool" where
  "ForbiddenTransitionError err =
     (case err of AppError msg code \<Rightarrow> code = 403 | ValidationError ps \<Rightarrow> False | Error msg \<Rightarrow> False)"

subsection \<open>Strings: white space, trim, number to string\<close>

text \<open>The code units below 256 that \<open>\s\<close> matches and that \<open>String.prototype.trim\<close>
  strips: tab, line feed, vertical tab, form feed, carriage return, space, no-break space.\<close>

definition white_space :: "char \<Rightarrow> bool" where
  "white_space c = (c \<in> set [CHR 0x09, CHR 0x0A, CHR 0x0B, CHR 0x0C, CHR 0x0D, CHR '' '', CHR 0xA0])"

text \<open>The code units below 256 that \<open>.\<close> does not match.\<close>

definition line_terminator :: "char \<Rightarrow> bool" where
  "line_terminator c = (c \<in> set [CHR 0x0A, CHR 0x0D])"

definition trim :: "string \<Rightarrow> string" where
  "trim v = rev (dropWhile white_space (rev (dropWhile white_space v)))"

fun digits :: "nat \<Rightarrow> string" where
  "digits n = (if n < 10 then [''0123456789'' ! n] else digits (n div 10) @ [''0123456789'' ! (n mod 10)])"

declare digits.simps [simp del]

text \<open>\<open>String(n)\<close> for an integral number of magnitude below \<open>10^21\<close>, which is how
  mongoose casts a number assigned to a path of type String.\<close>

definition String_of_number :: "int \<Rightarrow> string" where
  "String_of_number n = (if n < 0 then CHR ''-'' # digits (nat (- n)) else digits (nat n))"

text \<open>Reading a decimal string back, to state that \<open>digits\<close> loses nothing.\<close>

definition digit_value :: "char \<Rightarrow> nat" where
  "digit_value c = of_char c - 48"

definition Number_of_digits :: "string \<Rightarrow> nat" where
  "Number_of_digits s = foldl (\<lambda>n c. 10 * n + digit_value c) 0 s"

subsection \<open>Numbers: rounding to the nearest double\<close>

text \<open>Rounding to the nearest integer, a tie going to the even one.\<close>

definition round_half_even :: "rat \<Rightarrow> int" where
  "round_half_even y =
     (let f = \<lfloor>y\<rfloor>; r = y - of_int f
      in if r < 1 / 2 then f else if 1 / 2 < r then f + 1 else if even f then f else f + 1)"

text \<open>For \<open>0 < x\<close>, the \<open>e\<close> with \<open>2^e \<le> x < 2^(e+1)\<close>.\<close>

definition exponent :: "rat \<Rightarrow> int" where
  "exponent x = (if 1 \<le> x then bitlen \<lfloor>x\<rfloor> - 1 else - bitlen (\<lceil>1 / x\<rceil> - 1))"

text \<open>The distance between neighbouring doubles at \<open>x\<close>: 52 bits below the exponent of
  \<open>x\<close>, and below -1022 for the subnormal numbers.\<close>

definition ulp :: "rat \<Rightarrow> rat" where
  "ulp x = 2 powi (max (exponent \<bar>x\<bar>) (- 1022) - 52)"

text \<open>The double nearest to \<open>x\<close>, ties to even: IEEE 754 binary64 rounding of a result
  of magnitude below \<open>2^1024\<close> (a larger one overflows, which no quotient of a time
  value by 1000 does).\<close>

definition double :: "rat \<Rightarrow> rat" where
  "double x = (if x = 0 then 0 else of_int (round_half_even (x / ulp x)) * ulp x)"

subsection \<open>The schema\<close>

text \<open>The paths of \<open>userSchema\<close>, with the schema's types. The \<open>createdAt\<close> and
  \<open>updatedAt\<close> paths that \<open>timestamps: true\<close> adds are left out.\<close>

record user =
  name :: "string option"
  email :: "string option"
  role :: "string option"
  dealershipApplicationStatus :: "string option"
  password :: "string option"
  passwordConfirm :: "string option"
  passwordResetToken :: "string option"
  passwordResetTokenExpires :: "string option"
  userConfirmationToken :: "string option"
  userConfirmationTokenExpires :: "int option"
  passwordChangedAt :: "int option"
  isUserConfirmed :: "bool option"
  applyForDealership :: "bool option"
  profilePhoto :: "string option"

text \<open>
  A mongoose document: the values of its paths (\<open>this.path\<close>), \<open>isNew\<close>, the paths
  that \<open>isModified\<close> reports, the paths that the projection of the query left out
  (those for which \<open>isSelected\<close> is false), and the representation of the user that
  the last successful \<open>save\<close> of this document wrote (\<open>None\<close> before the first
  one). The representation written is the document after the hooks; mongoose sends the
  store the modified paths of it, the others being in the store already.
\<close>

record document =
  doc :: user
  isNew :: bool
  modifiedPaths :: "string set"
  excluded :: "string set"
  saved :: "user option"

text \<open>
  What one call takes from outside the repository: \<open>bcrypt.hash(data, rounds)\<close> (the salt
  is the environment's), \<open>crypto.createHash("sha256").update(s).digest("hex")\<close>,
  \<open>crypto.randomBytes(n).toString("hex")\<close> and \<open>Date.now()\<close>.
\<close>

record env =
  bcrypt_hash :: "string \<Rightarrow> nat \<Rightarrow> string"
  sha256_hex :: "string \<Rightarrow> string"
  randomBytes_hex :: "nat \<Rightarrow> string"
  now :: int

text \<open>An assignment to a path marks it modified when it changes the value.\<close>

definition mark :: "string \<Rightarrow> bool \<Rightarrow> document \<Rightarrow> document" where
  "mark p changed d = (if changed then d\<lparr>modifiedPaths := insert p (modifiedPaths d)\<rparr> else d)"

subsection \<open>Validators of the schema\<close>

definition upper_case :: string where
  "upper_case = ''ABCDEFGHIJKLMNOPQRSTUVWXYZ''"

definition lower_case :: string where
  "lower_case = ''abcdefghijklmnopqrstuvwxyz''"

definition digit :: string where
  "digit = ''0123456789''"

definition special :: string where
  "special = ''!@#$%^&*''"

text \<open>\<open>(?=.*[cls])\<close>: some character of the class occurs before the first line terminator.\<close>

definition lookahead :: "string \<Rightarrow> string \<Rightarrow> bool" where
  "lookahead cls v = list_ex (\<lambda>c. c \<in> set cls) (takeWhile (\<lambda>c. \<not> line_terminator c) v)"

text \<open>\<open>/^(?=.*[A-Z])(?=.*[!@#$%^&*])[A-Za-z\d!@#$%^&*]{8,50}$/.test(value)\<close>\<close>

definition password_validator :: "string \<Rightarrow> bool" where
  "password_validator v =
     (lookahead upper_case v \<and> lookahead special v \<and>
      list_all (\<lambda>c. c \<in> set (upper_case @ lower_case @ digit @ special)) v \<and>
      8 \<le> length v \<and> length v \<le> 50)"

definition password_message :: "string \<Rightarrow> string" where
  "password_message v =
     (if length v < 8 then ''Password must be at least 8 characters''
      else if length v > 50 then ''Password must be at most 50 characters''
      else if \<not> list_ex (\<lambda>c. c \<in> set upper_case) v
        then ''Password must contain at least one uppercase letter''
      else if \<not> list_ex (\<lambda>c. c \<in> set special) v
        then ''Password must contain at least one special character''
      else ''Invalid password'')"

text \<open>\<open>[^\s@]+\<close> matching the whole of \<open>v\<close>.\<close>

definition no_space_or_at :: "string \<Rightarrow> bool" where
  "no_space_or_at v = (v \<noteq> [] \<and> list_all (\<lambda>c. \<not> white_space c \<and> c \<noteq> CHR ''@'') v)"

text \<open>\<open>/^[^\s@]+@[^\s@]+\.[^\s@]+$/.test(value)\<close>: position \<open>i\<close> holds the \<open>@\<close> and
  position \<open>j\<close> the dot of some match.\<close>

definition email_validator :: "string \<Rightarrow> bool" where
  "email_validator v =
     list_ex (\<lambda>i. list_ex (\<lambda>j.
        v ! i = CHR ''@'' \<and> v ! j = CHR ''.'' \<and>
        no_space_or_at (take i v) \<and>
        no_space_or_at (take (j - (i + 1)) (drop (i + 1) v)) \<and>
        no_space_or_at (drop (j + 1) v)) [i + 1 ..< length v]) [0 ..< length v]"

text \<open>mongoose's \<open>required\<close> on a String path: the value is present and not empty.\<close>

definition required :: "string option \<Rightarrow> bool" where
  "required v = (case v of None \<Rightarrow> False | Some s \<Rightarrow> s \<noteq> [])"

text \<open>
  mongoose validates the paths that are required, loaded, modified or defaulted, apart
  from a path that the query left out and that is not modified; a validator other than
  \<open>required\<close> is not run on an absent value.
\<close>

definition validated :: "document \<Rightarrow> string \<Rightarrow> bool" where
  "validated d p = (p \<notin> excluded d \<or> p \<in> modifiedPaths d)"

text \<open>The paths that fail validation, in schema order.\<close>

definition validate :: "document \<Rightarrow> string list" where
  "validate d =
     (let u = doc d in
      [''name''. validated d ''name'' \<and>
         \<not> (required (name u) \<and>
            (case name u of None \<Rightarrow> True | Some v \<Rightarrow> 4 \<le> length v \<and> length v \<le> 50))] @
      [''email''. validated d ''email'' \<and>
         \<not> (required (email u) \<and>
            (case email u of None \<Rightarrow> True | Some v \<Rightarrow> email_validator v))] @
      [''role''. validated d ''role'' \<and>
         \<not> (case role u of None \<Rightarrow> True | Some v \<Rightarrow> v \<in> set [USER, DEALER, ADMIN])] @
      [''dealershipApplicationStatus''. validated d ''dealershipApplicationStatus'' \<and>
         \<not> (case dealershipApplicationStatus u of None \<Rightarrow> True
            | Some v \<Rightarrow> v \<in> set [APPROVED, PENDING, REJECTED])] @
      [''password''. validated d ''password'' \<and>
         \<not> (required (password u) \<and>
            (case password u of None \<Rightarrow> True | Some v \<Rightarrow> password_validator v))] @
      [''passwordConfirm''. validated d ''passwordConfirm'' \<and>
         \<not> (required (passwordConfirm u) \<and>
            (case passwordConfirm u of None \<Rightarrow> True | Some v \<Rightarrow> Some v = password u))])"

subsection \<open>Creating and saving documents\<close>

definition supplied :: "user \<Rightarrow> string set" where
  "supplied u = set (
     [''name''. name u \<noteq> None] @ [''email''. email u \<noteq> None] @ [''role''. role u \<noteq> None] @
     [''dealershipApplicationStatus''. dealershipApplicationStatus u \<noteq> None] @
     [''password''. password u \<noteq> None] @ [''passwordConfirm''. passwordConfirm u \<noteq> None] @
     [''passwordResetToken''. passwordResetToken u \<noteq> None] @
     [''passwordResetTokenExpires''. passwordResetTokenExpires u \<noteq> None] @
     [''userConfirmationToken''. userConfirmationToken u \<noteq> None] @
     [''userConfirmationTokenExpires''. userConfirmationTokenExpires u \<noteq> None] @
     [''passwordChangedAt''. passwordChangedAt u \<noteq> None] @
     [''isUserConfirmed''. isUserConfirmed u \<noteq> None] @
     [''applyForDealership''. applyForDealership u \<noteq> None] @
     [''profilePhoto''. profilePhoto u \<noteq> None])"

text \<open>
  \<open>new User(draft)\<close>: the setters of the schema run (\<open>trim: true\<close> on name, email and
  password), the default of role is filled in, the paths of the draft are modified and
  the document is new.
\<close>

definition new_document :: "user \<Rightarrow> document" where
  "new_document draft =
     \<lparr>doc = draft\<lparr>name := map_option trim (name draft),
                  email := map_option trim (email draft),
                  role := (case role draft of None \<Rightarrow> Some USER | Some r \<Rightarrow> Some r),
                  password := map_option trim (password draft)\<rparr>,
      isNew = True, modifiedPaths = supplied draft, excluded = {}, saved = None\<rparr>"

text \<open>
  The first \<open>pre("save")\<close> hook. \<open>bcrypt.hash\<close> rejects when its data is missing
  (\<open>data and salt arguments required\<close>).
\<close>

definition pre_save_hash :: "env \<Rightarrow> document \<Rightarrow> error + document" where
  "pre_save_hash e d =
     (if ''password'' \<in> modifiedPaths d then
        (case password (doc d) of
           None \<Rightarrow> Inl (Error ''data and salt arguments required'')
         | Some p \<Rightarrow>
             Inr (mark ''passwordConfirm'' (passwordConfirm (doc d) \<noteq> None)
                    (d\<lparr>doc := (doc d)\<lparr>password := Some (bcrypt_hash e p 13),
                                      passwordConfirm := None\<rparr>\<rparr>)))
      else Inr d)"

text \<open>The second \<open>pre("save")\<close> hook.\<close>

definition pre_save_passwordChangedAt :: "env \<Rightarrow> document \<Rightarrow> document" where
  "pre_save_passwordChangedAt e d =
     (if \<not> isNew d \<and> ''password'' \<in> modifiedPaths d then
        mark ''passwordChangedAt'' (passwordChangedAt (doc d) \<noteq> Some (now e - 1000))
          (d\<lparr>doc := (doc d)\<lparr>passwordChangedAt := Some (now e - 1000)\<rparr>\<rparr>)
      else d)"

text \<open>
  \<open>this.save({ validateBeforeSave })\<close>: validation when asked for, then the two hooks in
  the order of their registration, then the write. An error leaves the document as the
  failing step found it and writes nothing. The store itself (unique index on email,
  connection failures) is outside the model.
\<close>

definition save :: "env \<Rightarrow> bool \<Rightarrow> document \<Rightarrow> (error + unit) \<times> document" where
  "save e validateBeforeSave d =
     (if validateBeforeSave \<and> validate d \<noteq> [] then (Inl (ValidationError (validate d)), d)
      else
        (case pre_save_hash e d of
           Inl err \<Rightarrow> (Inl err, d)
         | Inr d1 \<Rightarrow>
             (let d2 = pre_save_passwordChangedAt e d1
              in (Inr (), d2\<lparr>isNew := False, modifiedPaths := {}, saved := Some (doc d2)\<rparr>))))"

text \<open>\<open>User.create(draft)\<close>, the spec's \<open>create\<close>.\<close>

definition create :: "env \<Rightarrow> user \<Rightarrow> (error + unit) \<times> document" where
  "create e draft = save e True (new_document draft)"

subsection \<open>Methods of the schema\<close>

text \<open>
  \<open>this.passwordChangedAt.getTime() / 1000 > jwtIsa\<close>: the time value of a Date is an
  integer of magnitude at most 8.64e15, which a double holds exactly; the quotient is
  rounded to a double and compared with \<open>jwtIsa\<close>, a finite number.
\<close>

definition passwordChangedAfterJwt :: "rat \<Rightarrow> document \<Rightarrow> bool" where
  "passwordChangedAfterJwt jwtIsa d =
     (case passwordChangedAt (doc d) of
        Some t \<Rightarrow> double (of_int t / 1000) > jwtIsa
      | None \<Rightarrow> False)"

text \<open>
  \<open>comparePassword\<close> awaits \<open>bcrypt.compare(plainPassword, hashedPassword)\<close> and
  returns its result: what it returns, and whether it rejects, is the library's, so the
  method has no definition here.
\<close>

text \<open>Modelled from the spec: createTimeStampInEpoch of utils/utils.js is not among the
  sources; the spec gives the expiry as now plus the window, here in minutes, and the
  clock counts milliseconds.\<close>
definition createTimeStampInEpoch :: "env \<Rightarrow> int \<Rightarrow> int" where
  "createTimeStampInEpoch e minutes = now e + minutes * 60 * 1000"

definition generateAndSavePasswordResetToken :: "env \<Rightarrow> document \<Rightarrow> (error + string) \<times> document" where
  "generateAndSavePasswordResetToken e d =
     (let token = randomBytes_hex e 32;
          hashed = Some (sha256_hex e token);
          d1 = mark ''passwordResetToken'' (passwordResetToken (doc d) \<noteq> hashed)
                 (d\<lparr>doc := (doc d)\<lparr>passwordResetToken := hashed\<rparr>\<rparr>);
          expires = Some (String_of_number (createTimeStampInEpoch e 10));
          d2 = mark ''passwordResetTokenExpires'' (passwordResetTokenExpires (doc d1) \<noteq> expires)
                 (d1\<lparr>doc := (doc d1)\<lparr>passwordResetTokenExpires := expires\<rparr>\<rparr>)
      in case save e False d2 of
           (Inl err, d3) \<Rightarrow> (Inl err, d3)
         | (Inr u, d3) \<Rightarrow> (Inr token, d3))"

definition generateAndSaveUserConfirmationToken :: "env \<Rightarrow> document \<Rightarrow> (error + string) \<times> document" where
  "generateAndSaveUserConfirmationToken e d =
     (let token = randomBytes_hex e 32;
          hashed = Some (sha256_hex e token);
          d1 = mark ''userConfirmationToken'' (userConfirmationToken (doc d) \<noteq> hashed)
                 (d\<lparr>doc := (doc d)\<lparr>userConfirmationToken := hashed\<rparr>\<rparr>);
          expires = Some (createTimeStampInEpoch e 10);
          d2 = mark ''userConfirmationTokenExpires'' (userConfirmationTokenExpires (doc d1) \<noteq> expires)
                 (d1\<lparr>doc := (doc d1)\<lparr>userConfirmationTokenExpires := expires\<rparr>\<rparr>)
      in case save e False d2 of
           (Inl err, d3) \<Rightarrow> (Inl err, d3)
         | (Inr u, d3) \<Rightarrow> (Inr token, d3))"

definition dealershipApplicationResponse :: "env \<Rightarrow> string option \<Rightarrow> document \<Rightarrow> (error + unit) \<times> document" where
  "dealershipApplicationResponse e status d =
     (if dealershipApplicationStatus (doc d) = Some APPROVED
      then (Inl (AppError ''Cannot modify an already application'' 403), d)
      else save e False
             (mark ''dealershipApplicationStatus'' (dealershipApplicationStatus (doc d) \<noteq> status)
                (d\<lparr>doc := (doc d)\<lparr>dealershipApplicationStatus := status\<rparr>\<rparr>)))"

definition revokeDealershipApplication :: "env \<Rightarrow> document \<Rightarrow> (error + unit) \<times> document" where
  "revokeDealershipApplication e d =
     (if dealershipApplicationStatus (doc d) \<noteq> Some APPROVED
      then (Inl (AppError ''Only approved applications can be revoked'' 403), d)
      else save e False
             (mark ''dealershipApplicationStatus'' (dealershipApplicationStatus (doc d) \<noteq> Some REJECTED)
                (d\<lparr>doc := (doc d)\<lparr>dealershipApplicationStatus := Some REJECTED\<rparr>\<rparr>)))"

text \<open>
  A pending change of the password carries a value. \<open>new_document\<close> establishes this and
  every operation above keeps it, but mongoose lets a caller break it
  (\<open>markModified("password")\<close> on a document loaded without the password);
  \<open>bcrypt.hash\<close> rejects a document without it.
\<close>

definition hashable :: "document \<Rightarrow> bool" where
  "hashable d = (''password'' \<in> modifiedPaths d \<longrightarrow> password (doc d) \<noteq> None)"

text \<open>Sequences of calls to the two methods of the application state machine, each with
  the environment of its call.\<close>

datatype call = Respond "string option" | Revoke

definition step :: "env \<times> call \<Rightarrow> document \<Rightarrow> document" where
  "step ec d =
     (case snd ec of
        Respond status \<Rightarrow> snd (dealershipApplicationResponse (fst ec) status d)
      | Revoke \<Rightarrow> snd (revokeDealershipApplication (fst ec) d))"

definition run :: "(env \<times> call) list \<Rightarrow> document \<Rightarrow> document" where
  "run calls d = foldl (\<lambda>d ec. step ec d) d calls"

text \<open>PENDING is neither the status of the document nor the status last saved.\<close>

definition no_pending :: "document \<Rightarrow> bool" where
  "no_pending d =
     (dealershipApplicationStatus (doc d) \<noteq> Some PENDING \<and>
      map_option dealershipApplicationStatus (saved d) \<noteq> Some (Some PENDING))"

subsection \<open>The password policy in the words of the spec\<close>

text \<open>At least one uppercase letter, at least one symbol of the set, length 8 to 50.\<close>

definition complexity_policy :: "string \<Rightarrow> bool" where
  "complexity_policy p =
     (list_ex (\<lambda>c. c \<in> set upper_case) p \<and> list_ex (\<lambda>c. c \<in> set special) p \<and>
      8 \<le> length p \<and> length p \<le> 50)"

subsection \<open>A concrete environment and concrete users\<close>

definition env0 :: env where
  "env0 = \<lparr>bcrypt_hash = (\<lambda>p rounds. ''$2b$'' @ digits rounds @ ''$'' @ rev p),
           sha256_hex = (\<lambda>s. ''sha256:'' @ s),
           randomBytes_hex = (\<lambda>n. replicate (2 * n) (CHR ''a'')),
           now = 1700000000000\<rparr>"

definition draft0 :: user where
  "draft0 = \<lparr>name = Some ''Alice'', email = Some ''a@b.com'', role = None,
             dealershipApplicationStatus = None, password = Some ''Abcdef1!'',
             passwordConfirm = Some ''Abcdef1!'', passwordResetToken = None,
             passwordResetTokenExpires = None, userConfirmationToken = None,
             userConfirmationTokenExpires = None, passwordChangedAt = None,
             isUserConfirmed = None, applyForDealership = None, profilePhoto = None\<rparr>"

text \<open>A user as a query returns it (without the paths that the schema declares
  \<open>select: false\<close>), with a given status.\<close>

definition loaded :: "string option \<Rightarrow> document" where
  "loaded status =
     \<lparr>doc = draft0\<lparr>role := Some USER, dealershipApplicationStatus := status,
                   password := None, passwordConfirm := None\<rparr>,
      isNew = False, modifiedPaths = {},
      excluded = {''password'', ''passwordResetToken'', ''passwordResetTokenExpires'',
                  ''userConfirmationToken'', ''userConfirmationTokenExpires'',
                  ''passwordChangedAt''},
      saved = None\<rparr>"

section \<open>Properties\<close>

subsection \<open>Decimal strings\<close>

lemma digit_value_nth: "k < 10 \<Longrightarrow> digit_value (''0123456789'' ! k) = k"
proof -
  assume "k < 10"
  then have "k \<in> {0, 1, 2, 3, 4, 5, 6, 7, 8, 9}" by auto
  then show ?thesis by (auto simp: digit_value_def)
qed

lemma Number_of_digits_digits: "Number_of_digits (digits n) = n"
proof (induction n rule: digits.induct)
  case (1 n)
  show ?case
  proof (cases "n < 10")
    case True
    then show ?thesis
      by (subst digits.simps) (simp add: Number_of_digits_def digit_value_nth)
  next
    case False
    with "1.IH" have "Number_of_digits (digits (n div 10)) = n div 10" by simp
    with False show ?thesis
      by (subst digits.simps) (simp add: Number_of_digits_def digit_value_nth)
  qed
qed

subsection \<open>Facts about \<open>save\<close> and \<open>mark\<close>\<close>

lemma doc_mark [simp]: "doc (mark p c d) = doc d"
  by (simp add: mark_def)

lemma saved_mark [simp]: "saved (mark p c d) = saved d"
  by (simp add: mark_def)

lemma isNew_mark [simp]: "isNew (mark p c d) = isNew d"
  by (simp add: mark_def)

lemma password_in_mark [simp]:
  "p \<noteq> ''password'' \<Longrightarrow> ''password'' \<in> modifiedPaths (mark p c d) \<longleftrightarrow> ''password'' \<in> modifiedPaths d"
  by (simp add: mark_def)

lemma hashable_mark [simp]:
  "p \<noteq> ''password'' \<Longrightarrow> hashable (mark p c d) = hashable d"
  by (simp add: hashable_def)

lemma hashable_doc_status [simp]:
  "hashable (d\<lparr>doc := (doc d)\<lparr>dealershipApplicationStatus := s\<rparr>\<rparr>) = hashable d"
  by (simp add: hashable_def)

lemma save_unvalidated:
  "hashable d \<Longrightarrow> fst (save e False d) = Inr ()"
  by (auto simp: save_def pre_save_hash_def hashable_def Let_def split: option.splits)

lemma save_unhashable:
  "\<not> hashable d \<Longrightarrow> save e False d = (Inl (Error ''data and salt arguments required''), d)"
  by (auto simp: save_def pre_save_hash_def hashable_def)

lemma save_failed:
  "fst (save e v d) \<noteq> Inr () \<Longrightarrow> snd (save e v d) = d"
  by (auto simp: save_def pre_save_hash_def Let_def split: option.splits if_splits)

lemma save_saved:
  "fst (save e v d) = Inr () \<Longrightarrow> saved (snd (save e v d)) = Some (doc (snd (save e v d)))"
  by (auto simp: save_def pre_save_hash_def Let_def split: option.splits if_splits)

lemma save_status:
  "dealershipApplicationStatus (doc (snd (save e v d))) = dealershipApplicationStatus (doc d)"
  by (auto simp: save_def pre_save_hash_def pre_save_passwordChangedAt_def mark_def Let_def
      split: option.splits)

subsection \<open>\<open>hashable\<close> is an invariant\<close>

lemma hashable_new_document: "hashable (new_document draft)"
  by (auto simp: hashable_def new_document_def supplied_def)

lemma hashable_save: "hashable d \<Longrightarrow> hashable (snd (save e v d))"
  by (cases "fst (save e v d) = Inr ()")
     (auto simp: save_failed, auto simp: save_def hashable_def Let_def split: if_splits sum.splits)

lemma hashable_step: "hashable d \<Longrightarrow> hashable (step ec d)"
  by (auto simp: step_def dealershipApplicationResponse_def revokeDealershipApplication_def
      hashable_save split: call.splits)

lemma hashable_run: "hashable d \<Longrightarrow> hashable (run calls d)"
  unfolding run_def by (induction calls arbitrary: d) (simp_all add: hashable_step)

lemma hashable_generateAndSavePasswordResetToken:
  assumes "hashable d"
  shows "hashable (snd (generateAndSavePasswordResetToken e d))"
proof -
  let ?h = "Some (sha256_hex e (randomBytes_hex e 32))"
  let ?x = "Some (String_of_number (createTimeStampInEpoch e 10))"
  let ?d1 = "mark ''passwordResetToken'' (passwordResetToken (doc d) \<noteq> ?h)
               (d\<lparr>doc := (doc d)\<lparr>passwordResetToken := ?h\<rparr>\<rparr>)"
  let ?d2 = "mark ''passwordResetTokenExpires'' (passwordResetTokenExpires (doc ?d1) \<noteq> ?x)
               (?d1\<lparr>doc := (doc ?d1)\<lparr>passwordResetTokenExpires := ?x\<rparr>\<rparr>)"
  from assms have "hashable ?d2" by (simp add: hashable_def)
  then have "hashable (snd (save e False ?d2))" by (rule hashable_save)
  moreover have "snd (generateAndSavePasswordResetToken e d) = snd (save e False ?d2)"
    by (cases "save e False ?d2")
       (auto simp: generateAndSavePasswordResetToken_def Let_def split: sum.splits)
  ultimately show ?thesis by simp
qed

subsection \<open>The dealership application state machine\<close>

text \<open>
  C1. On a user whose dealershipApplicationStatus is APPROVED,
  dealershipApplicationResponse fails for every requested status with the AppError of
  status code 403 (ForbiddenTransitionError); the document is left as it was, so the
  status remains APPROVED and nothing is written.
\<close>

theorem dealershipApplicationResponse_approved:
  assumes "dealershipApplicationStatus (doc d) = Some APPROVED"
  shows "fst (dealershipApplicationResponse e status d)
           = Inl (AppError ''Cannot modify an already application'' 403)
       \<and> ForbiddenTransitionError (AppError ''Cannot modify an already application'' 403)
       \<and> snd (dealershipApplicationResponse e status d) = d
       \<and> dealershipApplicationStatus (doc (snd (dealershipApplicationResponse e status d)))
           = Some APPROVED"
  using assms by (simp add: dealershipApplicationResponse_def ForbiddenTransitionError_def)

theorem dealershipApplicationResponse_approved_witness:
  "dealershipApplicationStatus (doc (loaded (Some APPROVED))) = Some APPROVED
   \<and> fst (dealershipApplicationResponse env0 (Some REJECTED) (loaded (Some APPROVED)))
       = Inl (AppError ''Cannot modify an already application'' 403)
   \<and> dealershipApplicationStatus
        (doc (snd (dealershipApplicationResponse env0 (Some REJECTED) (loaded (Some APPROVED)))))
       = Some APPROVED"
proof -
  have h: "dealershipApplicationStatus (doc (loaded (Some APPROVED))) = Some APPROVED"
    by (simp add: loaded_def)
  show ?thesis
    using h dealershipApplicationResponse_approved [OF h, of env0 "Some REJECTED"] by simp
qed

text \<open>
  C2, as stated, fails: the save inside revokeDealershipApplication runs the password
  hook. On an APPROVED user whose password path is marked modified while its value is
  absent (as after \<open>markModified("password")\<close> on a user loaded without the password),
  \<open>bcrypt.hash\<close> rejects, so the call fails, not with the AppError of status code
  403, and nothing is saved.
\<close>

theorem revokeDealershipApplication_hook_failure:
  "dealershipApplicationStatus
      (doc ((loaded (Some APPROVED))\<lparr>modifiedPaths := {''password''}\<rparr>)) = Some APPROVED
   \<and> fst (revokeDealershipApplication env0
            ((loaded (Some APPROVED))\<lparr>modifiedPaths := {''password''}\<rparr>))
       = Inl (Error ''data and salt arguments required'')
   \<and> \<not> ForbiddenTransitionError (Error ''data and salt arguments required'')
   \<and> saved (snd (revokeDealershipApplication env0
            ((loaded (Some APPROVED))\<lparr>modifiedPaths := {''password''}\<rparr>))) = None"
  by (simp add: revokeDealershipApplication_def loaded_def save_def pre_save_hash_def mark_def
      ForbiddenTransitionError_def APPROVED_def REJECTED_def)

text \<open>
  C2, amended. For every current status other than APPROVED (absent, PENDING, REJECTED or
  any other value) revokeDealershipApplication fails with the AppError of status code 403
  (ForbiddenTransitionError) and leaves the document as it was. When the current status
  is APPROVED it succeeds, and the status, in the document and as saved, is REJECTED,
  unless a change of the password without a value is pending on the document
  (\<open>\<not> hashable\<close>): then it fails with the error of \<open>bcrypt.hash\<close> and nothing is
  saved.
\<close>

theorem revokeDealershipApplication_outcomes:
  "(dealershipApplicationStatus (doc d) \<noteq> Some APPROVED \<longrightarrow>
      fst (revokeDealershipApplication e d)
          = Inl (AppError ''Only approved applications can be revoked'' 403)
      \<and> ForbiddenTransitionError (AppError ''Only approved applications can be revoked'' 403)
      \<and> snd (revokeDealershipApplication e d) = d)
   \<and> (dealershipApplicationStatus (doc d) = Some APPROVED \<and> hashable d \<longrightarrow>
      fst (revokeDealershipApplication e d) = Inr ()
      \<and> dealershipApplicationStatus (doc (snd (revokeDealershipApplication e d))) = Some REJECTED
      \<and> map_option dealershipApplicationStatus (saved (snd (revokeDealershipApplication e d)))
          = Some (Some REJECTED))
   \<and> (dealershipApplicationStatus (doc d) = Some APPROVED \<and> \<not> hashable d \<longrightarrow>
      fst (revokeDealershipApplication e d) = Inl (Error ''data and salt arguments required'')
      \<and> saved (snd (revokeDealershipApplication e d)) = saved d)"
proof (cases "dealershipApplicationStatus (doc d) = Some APPROVED")
  case False
  then show ?thesis
    by (simp add: revokeDealershipApplication_def ForbiddenTransitionError_def)
next
  case True
  note approved = True
  let ?d = "mark ''dealershipApplicationStatus''
              (dealershipApplicationStatus (doc d) \<noteq> Some REJECTED)
              (d\<lparr>doc := (doc d)\<lparr>dealershipApplicationStatus := Some REJECTED\<rparr>\<rparr>)"
  have r: "revokeDealershipApplication e d = save e False ?d"
    using True by (simp add: revokeDealershipApplication_def)
  have st: "dealershipApplicationStatus (doc (snd (save e False ?d))) = Some REJECTED"
    by (simp add: save_status)
  have h: "hashable ?d = hashable d" by simp
  show ?thesis
  proof (cases "hashable d")
    case True
    with h have "hashable ?d" by simp
    then have ok: "fst (save e False ?d) = Inr ()" by (rule save_unvalidated)
    from save_saved [OF ok] st
    have "map_option dealershipApplicationStatus (saved (snd (save e False ?d)))
            = Some (Some REJECTED)"
      by simp
    with r st ok True approved show ?thesis by simp
  next
    case False
    with h have "\<not> hashable ?d" by simp
    then have "save e False ?d = (Inl (Error ''data and salt arguments required''), ?d)"
      by (rule save_unhashable)
    with r False approved show ?thesis by simp
  qed
qed

theorem revokeDealershipApplication_outcomes_witness:
  "(dealershipApplicationStatus (doc (loaded (Some PENDING))) \<noteq> Some APPROVED
    \<and> fst (revokeDealershipApplication env0 (loaded (Some PENDING)))
        = Inl (AppError ''Only approved applications can be revoked'' 403)
    \<and> snd (revokeDealershipApplication env0 (loaded (Some PENDING))) = loaded (Some PENDING))
   \<and> (dealershipApplicationStatus (doc (loaded (Some APPROVED))) = Some APPROVED
    \<and> hashable (loaded (Some APPROVED))
    \<and> fst (revokeDealershipApplication env0 (loaded (Some APPROVED))) = Inr ()
    \<and> dealershipApplicationStatus (doc (snd (revokeDealershipApplication env0 (loaded (Some APPROVED)))))
        = Some REJECTED)
   \<and> (\<not> hashable ((loaded (Some APPROVED))\<lparr>modifiedPaths := {''password''}\<rparr>)
    \<and> fst (revokeDealershipApplication env0
             ((loaded (Some APPROVED))\<lparr>modifiedPaths := {''password''}\<rparr>))
        = Inl (Error ''data and salt arguments required''))"
proof -
  have a: "dealershipApplicationStatus (doc (loaded (Some APPROVED))) = Some APPROVED"
    and h: "hashable (loaded (Some APPROVED))"
    and p: "dealershipApplicationStatus (doc (loaded (Some PENDING))) \<noteq> Some APPROVED"
    and a': "dealershipApplicationStatus
               (doc ((loaded (Some APPROVED))\<lparr>modifiedPaths := {''password''}\<rparr>)) = Some APPROVED"
    and n: "\<not> hashable ((loaded (Some APPROVED))\<lparr>modifiedPaths := {''password''}\<rparr>)"
    by (simp_all add: loaded_def hashable_def PENDING_def APPROVED_def)
  show ?thesis
    using a h p a' n
      revokeDealershipApplication_outcomes [of "loaded (Some APPROVED)" env0]
      revokeDealershipApplication_outcomes [of "loaded (Some PENDING)" env0]
      revokeDealershipApplication_outcomes
        [of "(loaded (Some APPROVED))\<lparr>modifiedPaths := {''password''}\<rparr>" env0]
    by simp
qed

text \<open>
  C10, as stated, fails for the same reason: on a user who never applied, with the
  password path marked modified and its value absent, dealershipApplicationResponse
  fails with the error of \<open>bcrypt.hash\<close> and saves nothing.
\<close>

theorem dealershipApplicationResponse_hook_failure:
  "dealershipApplicationStatus (doc ((loaded None)\<lparr>modifiedPaths := {''password''}\<rparr>))
     \<noteq> Some APPROVED
   \<and> fst (dealershipApplicationResponse env0 (Some REJECTED)
            ((loaded None)\<lparr>modifiedPaths := {''password''}\<rparr>))
       = Inl (Error ''data and salt arguments required'')
   \<and> saved (snd (dealershipApplicationResponse env0 (Some REJECTED)
            ((loaded None)\<lparr>modifiedPaths := {''password''}\<rparr>))) = None"
  by (simp add: dealershipApplicationResponse_def loaded_def save_def pre_save_hash_def mark_def
      draft0_def)

text \<open>
  C10, amended. When the current status is anything other than APPROVED (absent
  included) and no change of the password without a value is pending on the document
  (\<open>hashable\<close>), dealershipApplicationResponse succeeds for every status argument that
  is a string or absent and stores the argument as it is, in the document and as saved:
  the save skips validation, so the argument need not be one of PENDING, APPROVED,
  REJECTED. With such a password change pending it fails with the error of
  \<open>bcrypt.hash\<close> and nothing is saved.
\<close>

theorem dealershipApplicationResponse_stores_argument:
  "(dealershipApplicationStatus (doc d) \<noteq> Some APPROVED \<and> hashable d \<longrightarrow>
      fst (dealershipApplicationResponse e status d) = Inr ()
      \<and> dealershipApplicationStatus (doc (snd (dealershipApplicationResponse e status d)))
          = status
      \<and> map_option dealershipApplicationStatus
           (saved (snd (dealershipApplicationResponse e status d))) = Some status)
   \<and> (dealershipApplicationStatus (doc d) \<noteq> Some APPROVED \<and> \<not> hashable d \<longrightarrow>
      fst (dealershipApplicationResponse e status d)
          = Inl (Error ''data and salt arguments required'')
      \<and> saved (snd (dealershipApplicationResponse e status d)) = saved d)"
proof (cases "dealershipApplicationStatus (doc d) = Some APPROVED")
  case True
  then show ?thesis by simp
next
  case False
  note other = False
  let ?d = "mark ''dealershipApplicationStatus'' (dealershipApplicationStatus (doc d) \<noteq> status)
              (d\<lparr>doc := (doc d)\<lparr>dealershipApplicationStatus := status\<rparr>\<rparr>)"
  have r: "dealershipApplicationResponse e status d = save e False ?d"
    using False by (simp add: dealershipApplicationResponse_def)
  have st: "dealershipApplicationStatus (doc (snd (save e False ?d))) = status"
    by (simp add: save_status)
  have h: "hashable ?d = hashable d" by simp
  show ?thesis
  proof (cases "hashable d")
    case True
    with h have "hashable ?d" by simp
    then have ok: "fst (save e False ?d) = Inr ()" by (rule save_unvalidated)
    from save_saved [OF ok] st
    have "map_option dealershipApplicationStatus (saved (snd (save e False ?d))) = Some status"
      by simp
    with r st ok True other show ?thesis by simp
  next
    case False
    with h have "\<not> hashable ?d" by simp
    then have "save e False ?d = (Inl (Error ''data and salt arguments required''), ?d)"
      by (rule save_unhashable)
    with r False other show ?thesis by simp
  qed
qed

theorem dealershipApplicationResponse_stores_argument_witness:
  "(dealershipApplicationStatus (doc (loaded None)) \<noteq> Some APPROVED
    \<and> hashable (loaded None)
    \<and> ''BOGUS'' \<notin> {PENDING, APPROVED, REJECTED}
    \<and> fst (dealershipApplicationResponse env0 (Some ''BOGUS'') (loaded None)) = Inr ()
    \<and> map_option dealershipApplicationStatus
         (saved (snd (dealershipApplicationResponse env0 (Some ''BOGUS'') (loaded None))))
        = Some (Some ''BOGUS''))
   \<and> (\<not> hashable ((loaded None)\<lparr>modifiedPaths := {''password''}\<rparr>)
    \<and> fst (dealershipApplicationResponse env0 (Some ''BOGUS'')
             ((loaded None)\<lparr>modifiedPaths := {''password''}\<rparr>))
        = Inl (Error ''data and salt arguments required''))"
proof -
  have a: "dealershipApplicationStatus (doc (loaded None)) \<noteq> Some APPROVED"
    and h: "hashable (loaded None)"
    and b: "''BOGUS'' \<notin> {PENDING, APPROVED, REJECTED}"
    and a': "dealershipApplicationStatus (doc ((loaded None)\<lparr>modifiedPaths := {''password''}\<rparr>))
               \<noteq> Some APPROVED"
    and n: "\<not> hashable ((loaded None)\<lparr>modifiedPaths := {''password''}\<rparr>)"
    by (simp_all add: loaded_def hashable_def PENDING_def APPROVED_def REJECTED_def draft0_def)
  show ?thesis
    using a h b a' n
      dealershipApplicationResponse_stores_argument [of "loaded None" env0 "Some ''BOGUS''"]
      dealershipApplicationResponse_stores_argument
        [of "(loaded None)\<lparr>modifiedPaths := {''password''}\<rparr>" env0 "Some ''BOGUS''"]
    by simp
qed

subsection \<open>Sequences of calls\<close>

lemma save_saved_status:
  "map_option dealershipApplicationStatus (saved (snd (save e v d)))
     \<in> {map_option dealershipApplicationStatus (saved d),
        Some (dealershipApplicationStatus (doc d))}"
proof (cases "fst (save e v d) = Inr ()")
  case True
  from save_saved [OF True] show ?thesis by (simp add: save_status)
next
  case False
  from save_failed [OF False] show ?thesis by simp
qed

lemma save_no_pending:
  assumes "dealershipApplicationStatus (doc d) \<noteq> Some PENDING"
    and "map_option dealershipApplicationStatus (saved d) \<noteq> Some (Some PENDING)"
  shows "no_pending (snd (save e v d))"
proof -
  have "Some (dealershipApplicationStatus (doc d)) \<noteq> Some (Some PENDING)"
    using assms(1) by simp
  with assms(2) save_saved_status [of e v d]
  have "map_option dealershipApplicationStatus (saved (snd (save e v d))) \<noteq> Some (Some PENDING)"
    by (metis insertE singletonD)
  with assms(1) show ?thesis
    unfolding no_pending_def save_status by (rule conjI)
qed

lemma step_no_pending:
  assumes "snd ec \<noteq> Respond (Some PENDING)" and "no_pending d"
  shows "no_pending (step ec d)"
proof (cases "snd ec")
  case (Respond status)
  with assms(1) have ne: "status \<noteq> Some PENDING" by auto
  show ?thesis
  proof (cases "dealershipApplicationStatus (doc d) = Some APPROVED")
    case True
    with Respond assms(2) show ?thesis
      by (simp add: step_def dealershipApplicationResponse_def)
  next
    case False
    have "no_pending (snd (save (fst ec) False
            (mark ''dealershipApplicationStatus'' (dealershipApplicationStatus (doc d) \<noteq> status)
               (d\<lparr>doc := (doc d)\<lparr>dealershipApplicationStatus := status\<rparr>\<rparr>))))"
      using ne assms(2) by (intro save_no_pending) (simp_all add: no_pending_def)
    with Respond False show ?thesis
      by (simp add: step_def dealershipApplicationResponse_def)
  qed
next
  case Revoke
  show ?thesis
  proof (cases "dealershipApplicationStatus (doc d) = Some APPROVED")
    case False
    with Revoke assms(2) show ?thesis
      by (simp add: step_def revokeDealershipApplication_def)
  next
    case True
    have "no_pending (snd (save (fst ec) False
            (mark ''dealershipApplicationStatus''
               (dealershipApplicationStatus (doc d) \<noteq> Some REJECTED)
               (d\<lparr>doc := (doc d)\<lparr>dealershipApplicationStatus := Some REJECTED\<rparr>\<rparr>))))"
      using assms(2)
      by (intro save_no_pending) (simp_all add: no_pending_def REJECTED_def PENDING_def)
    with Revoke True show ?thesis
      by (simp add: step_def revokeDealershipApplication_def)
  qed
qed

lemma run_no_pending:
  "\<forall>ec \<in> set calls. snd ec \<noteq> Respond (Some PENDING) \<Longrightarrow> no_pending d
   \<Longrightarrow> no_pending (run calls d)"
  unfolding run_def
  by (induction calls arbitrary: d) (simp_all add: step_no_pending)

text \<open>
  C3, as stated, fails: dealershipApplicationResponse does not look at its argument, so
  on a REJECTED user a call with the argument PENDING returns without error and sets the
  status to PENDING.
\<close>

theorem dealershipApplicationResponse_sets_pending:
  "dealershipApplicationStatus (doc (loaded (Some REJECTED))) = Some REJECTED
   \<and> fst (dealershipApplicationResponse env0 (Some PENDING) (loaded (Some REJECTED))) = Inr ()
   \<and> dealershipApplicationStatus
       (doc (snd (dealershipApplicationResponse env0 (Some PENDING) (loaded (Some REJECTED)))))
      = Some PENDING
   \<and> PENDING \<noteq> APPROVED \<and> PENDING \<noteq> REJECTED"
  by (simp add: dealershipApplicationResponse_def loaded_def save_def pre_save_hash_def
      pre_save_passwordChangedAt_def mark_def PENDING_def APPROVED_def REJECTED_def)

text \<open>
  C3, amended. For every user whose current status is not APPROVED (PENDING and REJECTED
  in particular) and every call of dealershipApplicationResponse that returns without
  error, the resulting status, in the document and as saved, is the status passed to the
  call; so it is APPROVED or REJECTED when the argument is one of the two. No sequence of
  calls of revokeDealershipApplication and of dealershipApplicationResponse with
  arguments other than PENDING ever sets the status to PENDING.
\<close>

theorem dealershipApplicationResponse_result_is_argument:
  "(dealershipApplicationStatus (doc d) \<noteq> Some APPROVED
      \<and> fst (dealershipApplicationResponse e status d) = Inr () \<longrightarrow>
      dealershipApplicationStatus (doc (snd (dealershipApplicationResponse e status d))) = status
      \<and> map_option dealershipApplicationStatus
           (saved (snd (dealershipApplicationResponse e status d))) = Some status
      \<and> (status \<in> {Some APPROVED, Some REJECTED} \<longrightarrow>
           dealershipApplicationStatus (doc (snd (dealershipApplicationResponse e status d)))
             \<in> {Some APPROVED, Some REJECTED}))
   \<and> ((\<forall>ec \<in> set calls. snd ec \<noteq> Respond (Some PENDING)) \<and> no_pending d0 \<longrightarrow>
        no_pending (run calls d0))"
proof (intro conjI impI)
  assume a: "dealershipApplicationStatus (doc d) \<noteq> Some APPROVED
      \<and> fst (dealershipApplicationResponse e status d) = Inr ()"
  let ?d = "mark ''dealershipApplicationStatus'' (dealershipApplicationStatus (doc d) \<noteq> status)
              (d\<lparr>doc := (doc d)\<lparr>dealershipApplicationStatus := status\<rparr>\<rparr>)"
  have r: "dealershipApplicationResponse e status d = save e False ?d"
    using a by (simp add: dealershipApplicationResponse_def)
  with a have ok: "fst (save e False ?d) = Inr ()" by simp
  show st: "dealershipApplicationStatus (doc (snd (dealershipApplicationResponse e status d)))
              = status"
    unfolding r by (simp add: save_status)
  from save_saved [OF ok] st r
  show "map_option dealershipApplicationStatus
          (saved (snd (dealershipApplicationResponse e status d))) = Some status"
    by simp
  assume "status \<in> {Some APPROVED, Some REJECTED}"
  with st show "dealershipApplicationStatus (doc (snd (dealershipApplicationResponse e status d)))
                  \<in> {Some APPROVED, Some REJECTED}"
    by simp
next
  assume "(\<forall>ec \<in> set calls. snd ec \<noteq> Respond (Some PENDING)) \<and> no_pending d0"
  then show "no_pending (run calls d0)"
    by (simp add: run_no_pending)
qed

theorem dealershipApplicationResponse_result_is_argument_witness:
  "(dealershipApplicationStatus (doc (loaded (Some PENDING))) \<noteq> Some APPROVED
    \<and> fst (dealershipApplicationResponse env0 (Some APPROVED) (loaded (Some PENDING))) = Inr ()
    \<and> dealershipApplicationStatus
         (doc (snd (dealershipApplicationResponse env0 (Some APPROVED) (loaded (Some PENDING)))))
        = Some APPROVED)
   \<and> (Respond (Some APPROVED) \<noteq> Respond (Some PENDING) \<and> Revoke \<noteq> Respond (Some PENDING)
    \<and> Respond None \<noteq> Respond (Some PENDING)
    \<and> no_pending (loaded (Some REJECTED))
    \<and> no_pending (run [(env0, Respond (Some APPROVED)), (env0, Revoke), (env0, Respond None)]
          (loaded (Some REJECTED))))"
proof -
  have a: "dealershipApplicationStatus (doc (loaded (Some PENDING))) \<noteq> Some APPROVED"
    by (simp add: loaded_def PENDING_def APPROVED_def)
  have b: "fst (dealershipApplicationResponse env0 (Some APPROVED) (loaded (Some PENDING))) = Inr ()"
    by (simp add: dealershipApplicationResponse_def loaded_def save_def pre_save_hash_def
      pre_save_passwordChangedAt_def mark_def PENDING_def APPROVED_def)
  have c: "\<forall>ec \<in> set [(env0, Respond (Some APPROVED)), (env0, Revoke), (env0, Respond None)].
          snd ec \<noteq> Respond (Some PENDING)"
    by (simp add: PENDING_def APPROVED_def)
  have n: "no_pending (loaded (Some REJECTED))"
    by (simp add: no_pending_def loaded_def PENDING_def REJECTED_def)
  show ?thesis
    using a b c n
      dealershipApplicationResponse_result_is_argument
        [where d = "loaded (Some PENDING)" and e = env0 and status = "Some APPROVED"
           and calls = "[(env0, Respond (Some APPROVED)), (env0, Revoke), (env0, Respond None)]"
           and ?d0.0 = "loaded (Some REJECTED)"]
    by simp
qed

subsection \<open>The hooks of \<open>save\<close>\<close>

lemma save_password_modified:
  assumes "''password'' \<in> modifiedPaths d" and "password (doc d) = Some p"
    and "v \<longrightarrow> validate d = []"
  shows "save e v d =
     (Inr (),
      \<lparr>doc = (doc d)\<lparr>password := Some (bcrypt_hash e p 13), passwordConfirm := None,
                     passwordChangedAt :=
                       (if isNew d then passwordChangedAt (doc d) else Some (now e - 1000))\<rparr>,
       isNew = False, modifiedPaths = {}, excluded = excluded d,
       saved = Some ((doc d)\<lparr>password := Some (bcrypt_hash e p 13), passwordConfirm := None,
                     passwordChangedAt :=
                       (if isNew d then passwordChangedAt (doc d) else Some (now e - 1000))\<rparr>)\<rparr>)"
  using assms
  by (auto simp: save_def pre_save_hash_def pre_save_passwordChangedAt_def mark_def Let_def)

lemma save_succeeded:
  assumes "fst (save e v d) = Inr ()"
  shows "hashable d \<and> (v \<longrightarrow> validate d = [])"
  using assms
  by (auto simp: save_def pre_save_hash_def hashable_def split: if_splits option.splits)

lemma save_passwordChangedAt:
  "passwordChangedAt (doc (snd (save e v d))) =
     (if fst (save e v d) = Inr () \<and> \<not> isNew d \<and> ''password'' \<in> modifiedPaths d
      then Some (now e - 1000) else passwordChangedAt (doc d))"
  by (auto simp: save_def pre_save_hash_def pre_save_passwordChangedAt_def mark_def Let_def
      split: option.splits)

text \<open>
  C5. Every save (validated or not, of a new document or of an existing one) that
  completes on a document whose password path is modified found a plaintext \<open>p\<close> in
  that path and saves \<open>bcrypt.hash(p, 13)\<close> in its place, with passwordConfirm removed;
  apart from passwordChangedAt the other paths are saved as they were. Such a save
  completes whenever the password has a value and validation, if asked for, passes; a
  save that fails writes nothing.
\<close>

theorem save_hashes_password:
  "(''password'' \<in> modifiedPaths d \<and> fst (save e v d) = Inr () \<longrightarrow>
      (\<exists>p. password (doc d) = Some p
         \<and> map_option password (saved (snd (save e v d))) = Some (Some (bcrypt_hash e p 13))
         \<and> map_option passwordConfirm (saved (snd (save e v d))) = Some None
         \<and> saved (snd (save e v d)) =
             Some ((doc d)\<lparr>password := Some (bcrypt_hash e p 13), passwordConfirm := None,
                     passwordChangedAt :=
                       (if isNew d then passwordChangedAt (doc d) else Some (now e - 1000))\<rparr>)))
   \<and> (''password'' \<in> modifiedPaths d \<and> password (doc d) \<noteq> None \<and> (v \<longrightarrow> validate d = []) \<longrightarrow>
        fst (save e v d) = Inr ())
   \<and> (fst (save e v d) \<noteq> Inr () \<longrightarrow> saved (snd (save e v d)) = saved d)"
proof (intro conjI impI)
  assume a: "''password'' \<in> modifiedPaths d \<and> fst (save e v d) = Inr ()"
  with save_succeeded [of e v d] obtain p where p: "password (doc d) = Some p"
    and v: "v \<longrightarrow> validate d = []"
    by (auto simp: hashable_def)
  from a p v have s: "saved (snd (save e v d)) =
      Some ((doc d)\<lparr>password := Some (bcrypt_hash e p 13), passwordConfirm := None,
              passwordChangedAt :=
                (if isNew d then passwordChangedAt (doc d) else Some (now e - 1000))\<rparr>)"
    by (simp add: save_password_modified)
  then have "map_option password (saved (snd (save e v d))) = Some (Some (bcrypt_hash e p 13))"
    and "map_option passwordConfirm (saved (snd (save e v d))) = Some None"
    by simp_all
  with p s show "\<exists>p. password (doc d) = Some p
         \<and> map_option password (saved (snd (save e v d))) = Some (Some (bcrypt_hash e p 13))
         \<and> map_option passwordConfirm (saved (snd (save e v d))) = Some None
         \<and> saved (snd (save e v d)) =
             Some ((doc d)\<lparr>password := Some (bcrypt_hash e p 13), passwordConfirm := None,
                     passwordChangedAt :=
                       (if isNew d then passwordChangedAt (doc d) else Some (now e - 1000))\<rparr>)"
    by blast
next
  assume "''password'' \<in> modifiedPaths d \<and> password (doc d) \<noteq> None \<and> (v \<longrightarrow> validate d = [])"
  then show "fst (save e v d) = Inr ()"
    by (auto simp: save_password_modified)
next
  assume "fst (save e v d) \<noteq> Inr ()"
  then show "saved (snd (save e v d)) = saved d"
    by (simp add: save_failed)
qed

theorem save_hashes_password_witness:
  "''password'' \<in> modifiedPaths (new_document draft0)
   \<and> password (doc (new_document draft0)) = Some ''Abcdef1!''
   \<and> validate (new_document draft0) = []
   \<and> fst (save env0 True (new_document draft0)) = Inr ()
   \<and> map_option password (saved (snd (save env0 True (new_document draft0))))
       = Some (Some (bcrypt_hash env0 ''Abcdef1!'' 13))
   \<and> map_option passwordConfirm (saved (snd (save env0 True (new_document draft0)))) = Some None"
proof -
  have m: "''password'' \<in> modifiedPaths (new_document draft0)"
    and p: "password (doc (new_document draft0)) = Some ''Abcdef1!''"
    by (simp_all add: new_document_def draft0_def supplied_def trim_def white_space_def)
  have v: "validate (new_document draft0) = []"
    by (simp add: validate_def validated_def new_document_def draft0_def supplied_def required_def trim_def
        white_space_def email_validator_def no_space_or_at_def password_validator_def
        lookahead_def line_terminator_def upper_case_def lower_case_def digit_def special_def
        USER_def DEALER_def ADMIN_def)
  show ?thesis
    using m p v save_hashes_password [of "new_document draft0" env0 True] by auto
qed

text \<open>
  C8. A save stamps passwordChangedAt exactly when it completes with the password path
  modified on a document that is not new; the stamp is \<open>Date.now() - 1000\<close>, strictly
  before the current time, and it is what is saved. Every other save, a creation in
  particular, leaves passwordChangedAt as it was.
\<close>

theorem save_stamps_passwordChangedAt:
  "passwordChangedAt (doc (snd (save e v d))) =
     (if fst (save e v d) = Inr () \<and> \<not> isNew d \<and> ''password'' \<in> modifiedPaths d
      then Some (now e - 1000) else passwordChangedAt (doc d))
   \<and> now e - 1000 < now e
   \<and> (fst (save e v d) = Inr () \<longrightarrow>
        map_option passwordChangedAt (saved (snd (save e v d)))
          = Some (passwordChangedAt (doc (snd (save e v d)))))
   \<and> passwordChangedAt (doc (snd (create e draft))) = passwordChangedAt draft"
proof (intro conjI impI)
  show "passwordChangedAt (doc (snd (save e v d))) =
     (if fst (save e v d) = Inr () \<and> \<not> isNew d \<and> ''password'' \<in> modifiedPaths d
      then Some (now e - 1000) else passwordChangedAt (doc d))"
    by (rule save_passwordChangedAt)
  show "now e - 1000 < now e" by simp
  show "passwordChangedAt (doc (snd (create e draft))) = passwordChangedAt draft"
    by (simp add: create_def save_passwordChangedAt new_document_def)
next
  assume "fst (save e v d) = Inr ()"
  from save_saved [OF this]
  show "map_option passwordChangedAt (saved (snd (save e v d)))
          = Some (passwordChangedAt (doc (snd (save e v d))))"
    by simp
qed

theorem save_stamps_passwordChangedAt_witness:
  "fst (save env0 False
          ((loaded None)\<lparr>doc := (doc (loaded None))\<lparr>password := Some ''Newpass1!''\<rparr>,
                          modifiedPaths := {''password''}\<rparr>)) = Inr ()
   \<and> passwordChangedAt (doc (snd (save env0 False
          ((loaded None)\<lparr>doc := (doc (loaded None))\<lparr>password := Some ''Newpass1!''\<rparr>,
                          modifiedPaths := {''password''}\<rparr>)))) = Some 1699999999000
   \<and> (1699999999000::int) < now env0
   \<and> passwordChangedAt (doc (snd (create env0 draft0))) = None"
proof -
  let ?d = "(loaded None)\<lparr>doc := (doc (loaded None))\<lparr>password := Some ''Newpass1!''\<rparr>,
                          modifiedPaths := {''password''}\<rparr>"
  have s: "fst (save env0 False ?d) = Inr ()"
    by (simp add: save_def pre_save_hash_def Let_def loaded_def)
  have n: "\<not> isNew ?d" and m: "''password'' \<in> modifiedPaths ?d"
    by (simp_all add: loaded_def)
  show ?thesis
    using s n m save_stamps_passwordChangedAt [of env0 False ?d draft0]
    by (simp add: env0_def draft0_def)
qed

subsection \<open>Rounding to the nearest double\<close>

lemma round_half_even_error: "\<bar>of_int (round_half_even y) - y\<bar> \<le> 1 / 2"
proof -
  have "of_int \<lfloor>y\<rfloor> \<le> y" and "y < of_int \<lfloor>y\<rfloor> + 1" by linarith+
  then show ?thesis
    by (auto simp: round_half_even_def Let_def)
qed

lemma round_half_even_of_int [simp]: "round_half_even (of_int n) = n"
  by (simp add: round_half_even_def)

lemma exponent_bounds:
  assumes "0 < x"
  shows "2 powi (exponent x) \<le> x \<and> x < 2 powi (exponent x + 1)"
proof (cases "1 \<le> x")
  case True
  let ?n = "\<lfloor>x\<rfloor>"
  from True have n: "0 < ?n" by simp
  from bitlen_bounds [OF n] have lo: "2 ^ nat (bitlen ?n - 1) \<le> ?n" and hi: "?n < 2 ^ nat (bitlen ?n)"
    by simp_all
  from n have b: "1 \<le> bitlen ?n" by (simp add: bitlen_alt_def)
  have "(of_int (2 ^ nat (bitlen ?n - 1)) :: rat) \<le> of_int ?n" using lo by (simp only: of_int_le_iff)
  then have "(2::rat) ^ nat (bitlen ?n - 1) \<le> of_int ?n"
    by (simp only: of_int_power of_int_numeral)
  also have "\<dots> \<le> x" by (rule of_int_floor_le)
  finally have 1: "(2::rat) powi (bitlen ?n - 1) \<le> x"
    using b by (simp add: power_int_nonneg_exp)
  from hi have "?n + 1 \<le> 2 ^ nat (bitlen ?n)" by simp
  then have "(of_int (?n + 1) :: rat) \<le> of_int (2 ^ nat (bitlen ?n))" by (simp only: of_int_le_iff)
  then have "(of_int (?n + 1) :: rat) \<le> 2 ^ nat (bitlen ?n)"
    by (simp only: of_int_power of_int_numeral)
  moreover have "x < of_int (?n + 1)" by linarith
  ultimately have "x < (2::rat) ^ nat (bitlen ?n)" by linarith
  then have 2: "x < (2::rat) powi (bitlen ?n)"
    using b by (simp add: power_int_nonneg_exp)
  from True 1 2 show ?thesis by (simp add: exponent_def)
next
  case False
  let ?y = "1 / x"
  let ?m = "\<lceil>?y\<rceil> - 1"
  from False assms have y: "1 < ?y" by (simp add: field_simps)
  then have m: "0 < ?m" by linarith
  from bitlen_bounds [OF m] have lo: "2 ^ nat (bitlen ?m - 1) \<le> ?m" and hi: "?m < 2 ^ nat (bitlen ?m)"
    by simp_all
  from m have b: "1 \<le> bitlen ?m" by (simp add: bitlen_alt_def)
  from hi have "\<lceil>?y\<rceil> \<le> 2 ^ nat (bitlen ?m)" by simp
  then have "(of_int \<lceil>?y\<rceil> :: rat) \<le> of_int (2 ^ nat (bitlen ?m))" by (simp only: of_int_le_iff)
  then have "(of_int \<lceil>?y\<rceil> :: rat) \<le> 2 ^ nat (bitlen ?m)"
    by (simp only: of_int_power of_int_numeral)
  with le_of_int_ceiling [of ?y] have "?y \<le> 2 ^ nat (bitlen ?m)" by linarith
  with assms have "1 / 2 ^ nat (bitlen ?m) \<le> x"
    by (simp add: field_simps)
  then have 1: "(2::rat) powi (- bitlen ?m) \<le> x"
    using b by (simp add: power_int_minus_divide power_int_nonneg_exp)
  have "(of_int (2 ^ nat (bitlen ?m - 1)) :: rat) \<le> of_int ?m" using lo by (simp only: of_int_le_iff)
  then have "(2::rat) ^ nat (bitlen ?m - 1) \<le> of_int ?m"
    by (simp only: of_int_power of_int_numeral)
  moreover have "of_int ?m < ?y" by linarith
  ultimately have "(2::rat) ^ nat (bitlen ?m - 1) < ?y" by linarith
  with assms have "x < 1 / 2 ^ nat (bitlen ?m - 1)"
    by (simp add: field_simps)
  moreover have "(2::rat) powi (- bitlen ?m + 1) = 1 / 2 ^ nat (bitlen ?m - 1)"
  proof -
    have "- bitlen ?m + 1 = - (bitlen ?m - 1)" by simp
    then show ?thesis
      using b by (simp only: power_int_minus_divide) (simp add: power_int_nonneg_exp)
  qed
  ultimately have 2: "x < (2::rat) powi (- bitlen ?m + 1)" by simp
  from False 1 2 show ?thesis by (simp add: exponent_def)
qed

lemma ulp_pos: "0 < ulp x"
  by (simp add: ulp_def)

lemma ulp_small:
  assumes "x \<noteq> 0" and "\<bar>x\<bar> < 2 ^ 43"
  shows "ulp x \<le> 1 / 1024"
proof -
  let ?e = "exponent \<bar>x\<bar>"
  from assms(1) have "0 < \<bar>x\<bar>" by simp
  from exponent_bounds [OF this] have "2 powi ?e \<le> \<bar>x\<bar>" by simp
  with assms(2) have lt: "(2::rat) powi ?e < 2 powi 43" by simp
  have "?e \<le> 42"
  proof (rule ccontr)
    assume "\<not> ?e \<le> 42"
    then have "43 \<le> ?e" by simp
    then have "(2::rat) powi 43 \<le> 2 powi ?e" by (intro power_int_increasing) simp_all
    with lt show False by simp
  qed
  then have "max ?e (- 1022) - 52 \<le> - 10" by simp
  then have "(2::rat) powi (max ?e (- 1022) - 52) \<le> 2 powi (- 10)"
    by (intro power_int_increasing) simp_all
  then show ?thesis by (simp add: ulp_def)
qed

lemma double_error:
  "\<bar>double x - x\<bar> \<le> ulp x / 2"
proof (cases "x = 0")
  case True
  with ulp_pos [of x] show ?thesis by (simp add: double_def)
next
  case False
  let ?u = "ulp x"
  have u: "0 < ?u" by (rule ulp_pos)
  have "double x - x = (of_int (round_half_even (x / ?u)) - x / ?u) * ?u"
    using False u by (simp add: double_def field_simps)
  then have "\<bar>double x - x\<bar> = \<bar>of_int (round_half_even (x / ?u)) - x / ?u\<bar> * ?u"
    using u by (simp add: abs_mult)
  also have "\<dots> \<le> (1 / 2) * ?u"
    using u round_half_even_error [of "x / ?u"] by (intro mult_right_mono) simp_all
  finally show ?thesis by simp
qed

lemma double_of_int:
  assumes "\<bar>n\<bar> < 2 ^ 43"
  shows "double (of_int n) = of_int n"
proof (cases "n = 0")
  case True
  then show ?thesis by (simp add: double_def)
next
  case False
  let ?x = "of_int n :: rat"
  let ?e = "exponent \<bar>?x\<bar>"
  let ?k = "nat (52 - max ?e (- 1022))"
  from False have "0 < \<bar>?x\<bar>" by simp
  from exponent_bounds [OF this] have "2 powi ?e \<le> \<bar>?x\<bar>" by simp
  moreover from assms have "\<bar>?x\<bar> < 2 ^ 43"
    by (metis of_int_abs of_int_less_numeral_power_cancel_iff)
  ultimately have lt: "(2::rat) powi ?e < 2 powi 43" by simp
  have e: "?e \<le> 42"
  proof (rule ccontr)
    assume "\<not> ?e \<le> 42"
    then have "43 \<le> ?e" by simp
    then have "(2::rat) powi 43 \<le> 2 powi ?e" by (intro power_int_increasing) simp_all
    with lt show False by simp
  qed
  have "max ?e (- 1022) - 52 = - int ?k" using e by simp
  then have u: "ulp ?x = 1 / 2 ^ ?k"
    unfolding ulp_def by (simp only: power_int_minus_divide power_int_of_nat)
  then have "?x / ulp ?x = of_int (n * 2 ^ ?k)" by simp
  then have "round_half_even (?x / ulp ?x) = n * 2 ^ ?k"
    by (simp only: round_half_even_of_int)
  with False u show ?thesis by (simp add: double_def)
qed

lemma double_quotient_whole_seconds:
  assumes "\<bar>t\<bar> \<le> 8640000000000000"
  shows "double (of_int t / 1000) > of_int iat \<longleftrightarrow> iat * 1000 < t"
proof -
  let ?x = "of_int t / 1000 :: rat"
  from assms have "\<bar>of_int t :: rat\<bar> \<le> 8640000000000000"
    by (metis of_int_abs of_int_le_numeral_iff)
  then have small: "\<bar>?x\<bar> < 2 ^ 43" by simp
  have err: "\<bar>double ?x - ?x\<bar> \<le> 1 / 2048"
  proof (cases "?x = 0")
    case True
    then show ?thesis by (simp add: double_def)
  next
    case False
    from ulp_small [OF False small] double_error [of ?x] show ?thesis by simp
  qed
  consider "iat * 1000 < t" | "t < iat * 1000" | "t = iat * 1000" by linarith
  then show ?thesis
  proof cases
    case 1
    then have "iat * 1000 + 1 \<le> t" by simp
    then have "(of_int (iat * 1000 + 1) :: rat) \<le> of_int t" by (simp only: of_int_le_iff)
    then have "of_int iat + 1 / 1000 \<le> ?x" by simp
    with err have "of_int iat < double ?x" by linarith
    with 1 show ?thesis by simp
  next
    case 2
    then have "t + 1 \<le> iat * 1000" by simp
    then have "(of_int (t + 1) :: rat) \<le> of_int (iat * 1000)" by (simp only: of_int_le_iff)
    then have "?x + 1 / 1000 \<le> of_int iat" by simp
    with err have "double ?x < of_int iat" by linarith
    with 2 show ?thesis by simp
  next
    case 3
    then have x: "?x = of_int iat" by simp
    with small have "\<bar>of_int iat :: rat\<bar> < 2 ^ 43" by simp
    then have "\<bar>iat\<bar> < 2 ^ 43"
      by (metis of_int_abs of_int_less_numeral_power_cancel_iff)
    from double_of_int [OF this] x 3 show ?thesis by simp
  qed
qed

subsection \<open>Tokens and time stamps\<close>

text \<open>
  C7, as stated, fails for an issued-at time with a fraction of a second: the quotient
  \<open>getTime() / 1000\<close> is rounded to a double. With passwordChangedAt at
  1700000000001 ms and the issued-at time \<open>1700000000 + 4194 / 2^22\<close> s (a double, just
  below 1700000000.001), the issued-at time predates passwordChangedAt, the quotient
  rounds to the issued-at time itself and the method returns false.
\<close>

theorem passwordChangedAfterJwt_rounding:
  "passwordChangedAt
      (doc ((loaded None)\<lparr>doc := (doc (loaded None))\<lparr>passwordChangedAt := Some 1700000000001\<rparr>\<rparr>))
     = Some 1700000000001
   \<and> double (1700000000 + 4194 / 2 ^ 22) = 1700000000 + 4194 / 2 ^ 22
   \<and> ((1700000000 + 4194 / 2 ^ 22) * 1000 :: rat) < of_int 1700000000001
   \<and> \<not> passwordChangedAfterJwt (1700000000 + 4194 / 2 ^ 22)
        ((loaded None)\<lparr>doc := (doc (loaded None))\<lparr>passwordChangedAt := Some 1700000000001\<rparr>\<rparr>)"
  by code_simp

text \<open>
  C7, amended. passwordChangedAfterJwt returns false for every user whose
  passwordChangedAt is absent. For a user with passwordChangedAt (the time value of a
  Date, of magnitude at most 8.64e15 ms) and an issued-at time that is a whole number of
  seconds, it returns true exactly when the issued-at time predates passwordChangedAt.
\<close>

theorem passwordChangedAfterJwt_whole_seconds:
  "(passwordChangedAt (doc d) = None \<longrightarrow> \<not> passwordChangedAfterJwt jwtIsa d)
   \<and> (passwordChangedAt (doc d) = Some t \<and> \<bar>t\<bar> \<le> 8640000000000000 \<longrightarrow>
        (passwordChangedAfterJwt (of_int iat) d \<longleftrightarrow> iat * 1000 < t))"
  by (simp add: passwordChangedAfterJwt_def double_quotient_whole_seconds)

theorem passwordChangedAfterJwt_whole_seconds_witness:
  "passwordChangedAt (doc (loaded None)) = None
   \<and> \<not> passwordChangedAfterJwt 1600000000 (loaded None)
   \<and> passwordChangedAt
        (doc ((loaded None)\<lparr>doc := (doc (loaded None))\<lparr>passwordChangedAt := Some 1700000000000\<rparr>\<rparr>))
       = Some 1700000000000
   \<and> \<bar>1700000000000 :: int\<bar> \<le> 8640000000000000
   \<and> (1600000000 :: int) * 1000 < 1700000000000
   \<and> passwordChangedAfterJwt (of_int 1600000000)
        ((loaded None)\<lparr>doc := (doc (loaded None))\<lparr>passwordChangedAt := Some 1700000000000\<rparr>\<rparr>)"
proof -
  have a: "passwordChangedAt (doc (loaded None)) = None"
    by (simp add: loaded_def draft0_def)
  have b: "passwordChangedAt
        (doc ((loaded None)\<lparr>doc := (doc (loaded None))\<lparr>passwordChangedAt := Some 1700000000000\<rparr>\<rparr>))
       = Some 1700000000000"
    by simp
  show ?thesis
    using a b
      passwordChangedAfterJwt_whole_seconds [of "loaded None" 1600000000 1700000000000 1600000000]
      passwordChangedAfterJwt_whole_seconds
        [of "(loaded None)\<lparr>doc := (doc (loaded None))\<lparr>passwordChangedAt := Some 1700000000000\<rparr>\<rparr>"
            1600000000 1700000000000 1600000000]
    by simp
qed

text \<open>
  C6. generateAndSavePasswordResetToken returns the raw token, the hexadecimal form of
  32 random bytes, and saves its SHA-256 digest in passwordResetToken together with the
  expiry, the decimal string of now plus 10 minutes in milliseconds, in
  passwordResetTokenExpires: one save writes both. When no password change is pending the
  saved representation is the document with exactly these two paths set. When the save
  fails (a pending password change without a value) neither path is written.
\<close>

theorem generateAndSavePasswordResetToken_correct:
  "(hashable d \<longrightarrow>
      fst (generateAndSavePasswordResetToken e d) = Inr (randomBytes_hex e 32)
      \<and> map_option passwordResetToken (saved (snd (generateAndSavePasswordResetToken e d)))
          = Some (Some (sha256_hex e (randomBytes_hex e 32)))
      \<and> map_option passwordResetTokenExpires (saved (snd (generateAndSavePasswordResetToken e d)))
          = Some (Some (String_of_number (now e + 10 * 60 * 1000))))
   \<and> (''password'' \<notin> modifiedPaths d \<longrightarrow>
      saved (snd (generateAndSavePasswordResetToken e d)) =
        Some ((doc d)\<lparr>passwordResetToken := Some (sha256_hex e (randomBytes_hex e 32)),
                      passwordResetTokenExpires :=
                        Some (String_of_number (now e + 10 * 60 * 1000))\<rparr>))
   \<and> (\<not> hashable d \<longrightarrow>
      fst (generateAndSavePasswordResetToken e d)
          = Inl (Error ''data and salt arguments required'')
      \<and> saved (snd (generateAndSavePasswordResetToken e d)) = saved d)"
proof -
  let ?h = "Some (sha256_hex e (randomBytes_hex e 32))"
  let ?x = "Some (String_of_number (now e + 10 * 60 * 1000))"
  let ?d1 = "mark ''passwordResetToken'' (passwordResetToken (doc d) \<noteq> ?h)
               (d\<lparr>doc := (doc d)\<lparr>passwordResetToken := ?h\<rparr>\<rparr>)"
  let ?d2 = "mark ''passwordResetTokenExpires'' (passwordResetTokenExpires (doc ?d1) \<noteq> ?x)
               (?d1\<lparr>doc := (doc ?d1)\<lparr>passwordResetTokenExpires := ?x\<rparr>\<rparr>)"
  have g: "generateAndSavePasswordResetToken e d =
             (case save e False ?d2 of
                (Inl err, d3) \<Rightarrow> (Inl err, d3)
              | (Inr u, d3) \<Rightarrow> (Inr (randomBytes_hex e 32), d3))"
    by (simp add: generateAndSavePasswordResetToken_def createTimeStampInEpoch_def Let_def)
  have h2: "hashable ?d2 = hashable d"
    by (simp add: hashable_def)
  have doc2: "doc ?d2 = (doc d)\<lparr>passwordResetToken := ?h, passwordResetTokenExpires := ?x\<rparr>"
    by simp
  have A: "fst (generateAndSavePasswordResetToken e d) = Inr (randomBytes_hex e 32)
      \<and> map_option passwordResetToken (saved (snd (generateAndSavePasswordResetToken e d))) = Some ?h
      \<and> map_option passwordResetTokenExpires (saved (snd (generateAndSavePasswordResetToken e d)))
          = Some ?x" if "hashable d"
  proof -
    from that h2 have "hashable ?d2" by simp
    then have ok: "fst (save e False ?d2) = Inr ()"
      by (rule save_unvalidated)
    then obtain d3 where s: "save e False ?d2 = (Inr (), d3)"
      by (cases "save e False ?d2") auto
    from save_saved [OF ok] s have sv: "saved d3 = Some (doc d3)" by simp
    have "passwordResetToken (doc (snd (save e False ?d2))) = passwordResetToken (doc ?d2)"
      and "passwordResetTokenExpires (doc (snd (save e False ?d2)))
             = passwordResetTokenExpires (doc ?d2)"
      by (auto simp: save_def pre_save_hash_def pre_save_passwordChangedAt_def mark_def Let_def
          split: option.splits)
    with s have "passwordResetToken (doc d3) = ?h" and "passwordResetTokenExpires (doc d3) = ?x"
      by simp_all
    with sv s g show ?thesis by simp
  qed
  have B: "saved (snd (generateAndSavePasswordResetToken e d)) =
        Some ((doc d)\<lparr>passwordResetToken := ?h, passwordResetTokenExpires := ?x\<rparr>)"
    if "''password'' \<notin> modifiedPaths d"
  proof -
    from that have "''password'' \<notin> modifiedPaths ?d2"
      by (simp add: mark_def)
    then have "save e False ?d2 =
        (Inr (), ?d2\<lparr>isNew := False, modifiedPaths := {}, saved := Some (doc ?d2)\<rparr>)"
      by (simp add: save_def pre_save_hash_def pre_save_passwordChangedAt_def)
    with g doc2 show ?thesis by simp
  qed
  have C: "fst (generateAndSavePasswordResetToken e d)
          = Inl (Error ''data and salt arguments required'')
      \<and> saved (snd (generateAndSavePasswordResetToken e d)) = saved d" if "\<not> hashable d"
  proof -
    from that h2 have "\<not> hashable ?d2" by simp
    then have "save e False ?d2 = (Inl (Error ''data and salt arguments required''), ?d2)"
      by (rule save_unhashable)
    with g show ?thesis by simp
  qed
  from A B C show ?thesis by blast
qed

theorem generateAndSavePasswordResetToken_correct_witness:
  "hashable (loaded None) \<and> ''password'' \<notin> modifiedPaths (loaded None)
   \<and> fst (generateAndSavePasswordResetToken env0 (loaded None)) = Inr (replicate 64 (CHR ''a''))
   \<and> map_option passwordResetToken (saved (snd (generateAndSavePasswordResetToken env0 (loaded None))))
       = Some (Some (''sha256:'' @ replicate 64 (CHR ''a'')))
   \<and> map_option passwordResetTokenExpires
        (saved (snd (generateAndSavePasswordResetToken env0 (loaded None))))
       = Some (Some ''1700000600000'')
   \<and> \<not> hashable ((loaded None)\<lparr>modifiedPaths := {''password''}\<rparr>)
   \<and> saved (snd (generateAndSavePasswordResetToken env0
                   ((loaded None)\<lparr>modifiedPaths := {''password''}\<rparr>))) = None"
proof -
  have h: "hashable (loaded None)" and m: "''password'' \<notin> modifiedPaths (loaded None)"
    and n: "\<not> hashable ((loaded None)\<lparr>modifiedPaths := {''password''}\<rparr>)"
    by (simp_all add: hashable_def loaded_def)
  have x: "String_of_number (now env0 + 10 * 60 * 1000) = ''1700000600000''"
    by (simp add: env0_def String_of_number_def digits.simps)
  have r: "randomBytes_hex env0 32 = replicate 64 (CHR ''a'')"
    and s: "sha256_hex env0 (replicate 64 (CHR ''a'')) = ''sha256:'' @ replicate 64 (CHR ''a'')"
    by (simp_all add: env0_def)
  have l: "saved ((loaded None)\<lparr>modifiedPaths := {''password''}\<rparr>) = None"
    by (simp add: loaded_def)
  show ?thesis
    using h m n
      generateAndSavePasswordResetToken_correct [of "loaded None" env0]
      generateAndSavePasswordResetToken_correct
        [of "(loaded None)\<lparr>modifiedPaths := {''password''}\<rparr>" env0]
    unfolding x r s l by simp
qed

subsection \<open>The password validator and \<open>create\<close>\<close>

lemma allowed_not_line_terminator:
  "c \<in> set (upper_case @ lower_case @ digit @ special) \<Longrightarrow> \<not> line_terminator c"
  by (auto simp: upper_case_def lower_case_def digit_def special_def line_terminator_def)

lemma lookahead_allowed:
  assumes "list_all (\<lambda>c. c \<in> set (upper_case @ lower_case @ digit @ special)) v"
  shows "lookahead cls v = list_ex (\<lambda>c. c \<in> set cls) v"
proof -
  from assms have "\<forall>c \<in> set v. \<not> line_terminator c"
    unfolding list_all_iff using allowed_not_line_terminator by blast
  then have "takeWhile (\<lambda>c. \<not> line_terminator c) v = v"
    by (simp add: takeWhile_eq_all_conv)
  then show ?thesis unfolding lookahead_def by (rule arg_cong)
qed

lemma password_validator_iff:
  "password_validator v \<longleftrightarrow>
     complexity_policy v \<and> list_all (\<lambda>c. c \<in> set (upper_case @ lower_case @ digit @ special)) v"
  unfolding password_validator_def complexity_policy_def
  using lookahead_allowed [of v] by blast

lemma create_rejects:
  assumes "password draft = None \<or> (\<exists>p. password draft = Some p \<and> \<not> password_validator (trim p))"
  shows "create e draft = (Inl (ValidationError (validate (new_document draft))), new_document draft)
       \<and> ''password'' \<in> set (validate (new_document draft))"
proof -
  have "''password'' \<in> set (validate (new_document draft))"
    using assms
    by (auto simp: validate_def validated_def new_document_def required_def Let_def)
  then show ?thesis
    by (auto simp: create_def save_def)
qed

text \<open>The message function of the validator falls through to its last case on a value
  that has the length, an uppercase letter and a symbol.\<close>

lemma password_message_invalid: "password_message ''Abcdef1_!'' = ''Invalid password''"
  by (simp add: password_message_def upper_case_def special_def)

text \<open>
  C4, as stated, fails in both halves. The validator also requires every character to be
  an ASCII letter, a digit or one of the symbols: \<open>Abcdef1_!\<close> has an uppercase letter,
  a symbol and nine characters, and is rejected. And the schema trims the password
  before it is validated: a password of 51 characters, \<open>Abcdef1!\<close> followed by 43
  spaces, is too long for the policy, yet \<open>create\<close> succeeds (the confirmation being
  \<open>Abcdef1!\<close>).
\<close>

theorem password_policy_counterexample:
  "complexity_policy ''Abcdef1_!'' \<and> \<not> password_validator ''Abcdef1_!''
   \<and> \<not> complexity_policy (''Abcdef1!'' @ replicate 43 (CHR '' ''))
   \<and> fst (create env0 (draft0\<lparr>password := Some (''Abcdef1!'' @ replicate 43 (CHR '' ''))\<rparr>))
       = Inr ()"
  by code_simp

text \<open>
  C4, amended. The password validator accepts a value if and only if it contains at
  least one uppercase letter, at least one symbol of \<open>!@#$%^&*\<close>, has length between 8
  and 50, and consists only of ASCII letters, digits and these symbols. For every
  draft whose password, once trimmed of surrounding white space, violates this policy,
  and for every draft without a password, \<open>create\<close> fails with a ValidationError that
  names the password path, and nothing is saved.
\<close>

theorem password_validator_policy:
  "(password_validator v \<longleftrightarrow>
      complexity_policy v \<and>
      list_all (\<lambda>c. c \<in> set (upper_case @ lower_case @ digit @ special)) v)
   \<and> (password draft = None \<or>
       (\<exists>p. password draft = Some p \<and>
          \<not> (complexity_policy (trim p) \<and>
             list_all (\<lambda>c. c \<in> set (upper_case @ lower_case @ digit @ special)) (trim p))) \<longrightarrow>
       fst (create e draft) = Inl (ValidationError (validate (new_document draft)))
       \<and> ''password'' \<in> set (validate (new_document draft))
       \<and> saved (snd (create e draft)) = None)"
proof (intro conjI impI)
  show "password_validator v \<longleftrightarrow>
      complexity_policy v \<and>
      list_all (\<lambda>c. c \<in> set (upper_case @ lower_case @ digit @ special)) v"
    by (rule password_validator_iff)
next
  assume "password draft = None \<or>
       (\<exists>p. password draft = Some p \<and>
          \<not> (complexity_policy (trim p) \<and>
             list_all (\<lambda>c. c \<in> set (upper_case @ lower_case @ digit @ special)) (trim p)))"
  then have "password draft = None \<or>
      (\<exists>p. password draft = Some p \<and> \<not> password_validator (trim p))"
    by (simp only: password_validator_iff)
  from create_rejects [OF this, of e]
  show "fst (create e draft) = Inl (ValidationError (validate (new_document draft)))"
    and "''password'' \<in> set (validate (new_document draft))"
    and "saved (snd (create e draft)) = None"
    by (simp_all add: new_document_def)
qed

theorem password_validator_policy_witness:
  "password_validator ''Abcdef1!''
   \<and> password (draft0\<lparr>password := Some ''abcdefg!''\<rparr>) = Some ''abcdefg!''
   \<and> \<not> complexity_policy (trim ''abcdefg!'')
   \<and> fst (create env0 (draft0\<lparr>password := Some ''abcdefg!''\<rparr>))
       = Inl (ValidationError [''password'', ''passwordConfirm''])"
proof -
  have t: "trim ''abcdefg!'' = ''abcdefg!''"
    by (simp add: trim_def white_space_def)
  have c: "\<not> complexity_policy ''abcdefg!''"
    and a: "complexity_policy ''Abcdef1!''
        \<and> list_all (\<lambda>c. c \<in> set (upper_case @ lower_case @ digit @ special)) ''Abcdef1!''"
    by (simp_all add: complexity_policy_def upper_case_def lower_case_def digit_def special_def)
  have v: "validate (new_document (draft0\<lparr>password := Some ''abcdefg!''\<rparr>))
             = [''password'', ''passwordConfirm'']"
    by (simp add: validate_def validated_def new_document_def draft0_def supplied_def required_def trim_def
        white_space_def email_validator_def no_space_or_at_def password_validator_def
        lookahead_def line_terminator_def upper_case_def lower_case_def digit_def special_def
        USER_def DEALER_def ADMIN_def)
  show ?thesis
    using a c
      password_validator_policy [of "''Abcdef1!''" "draft0\<lparr>password := Some ''abcdefg!''\<rparr>" env0]
    unfolding v by (simp add: t)
qed

end
